theory Spec2Isabelle
  imports Main
begin

unbundle bit_operations_syntax

section \<open>Behavioural models of the gate-level modules\<close>

text \<open>
  The classes \<^verbatim>\<open>XOR_1b\<close>, \<^verbatim>\<open>FA_1b\<close>, \<^verbatim>\<open>Adder_4b\<close> and \<^verbatim>\<open>ALU_4b\<close> are textually the same in
  \<^verbatim>\<open>simulator_gui.py\<close> and \<^verbatim>\<open>simulator_gui_enhanced.py\<close>; one embedding serves both files.

  Python integers are unbounded and their \<^verbatim>\<open>>>\<close>, \<^verbatim>\<open><<\<close>, \<^verbatim>\<open>&\<close>, \<^verbatim>\<open>|\<close>, \<^verbatim>\<open>~\<close> act on the infinite
  two's-complement representation, exactly as \<open>drop_bit\<close>, \<open>push_bit\<close>, \<open>AND\<close>, \<open>OR\<close>, \<open>NOT\<close> do
  on \<open>int\<close>.

  The single-bit gates are called with the integers 0 and 1 as well as with \<^verbatim>\<open>True\<close> and
  \<^verbatim>\<open>False\<close>; Python's \<^verbatim>\<open>and\<close>, \<^verbatim>\<open>or\<close>, \<^verbatim>\<open>not\<close> then return one of \<^verbatim>\<open>0\<close>, \<^verbatim>\<open>1\<close>, \<^verbatim>\<open>False\<close>, \<^verbatim>\<open>True\<close>,
  and \<^verbatim>\<open>True == 1\<close>, \<^verbatim>\<open>False == 0\<close> hold, also under \<^verbatim>\<open><<\<close> and \<^verbatim>\<open>|\<close>. The gates are
  therefore embedded on \<open>bool\<close>: an integer bit enters through its truth value (\<open>\<noteq> 0\<close>)
  and leaves, where it is shifted, through \<open>of_bool\<close>.
\<close>

definition XOR_1b_compute :: "bool \<Rightarrow> bool \<Rightarrow> bool" where
  "XOR_1b_compute a b = ((a \<and> \<not> b) \<or> (\<not> a \<and> b))"

definition FA_1b_compute :: "bool \<Rightarrow> bool \<Rightarrow> bool \<Rightarrow> bool \<times> bool" where
  "FA_1b_compute a b cin =
     (let xor_ab = XOR_1b_compute a b;
          s = XOR_1b_compute xor_ab cin;
          cout = ((a \<and> b) \<or> (cin \<and> xor_ab))
      in (s, cout))"

text \<open>One pass of the body of the \<^verbatim>\<open>for i in range(4)\<close> loop of \<^verbatim>\<open>Adder_4b.compute\<close>,
  on the pair of loop variables \<^verbatim>\<open>(result, carry)\<close>.\<close>

definition adder_iter :: "int \<Rightarrow> int \<Rightarrow> nat \<Rightarrow> int \<times> bool \<Rightarrow> int \<times> bool" where
  "adder_iter a b i rc =
     (case rc of (result, carry) \<Rightarrow>
        let a_bit = drop_bit i a AND 1;
            b_bit = drop_bit i b AND 1
        in case FA_1b_compute (a_bit \<noteq> 0) (b_bit \<noteq> 0) carry of
             (s_bit, carry') \<Rightarrow> (result OR push_bit i (of_bool s_bit), carry'))"

definition Adder_4b_compute :: "int \<Rightarrow> int \<Rightarrow> bool \<Rightarrow> int \<times> bool" where
  "Adder_4b_compute a b cin =
     (case fold (adder_iter a b) [0, 1, 2, 3] (0, cin) of
        (result, carry) \<Rightarrow> (result AND 15, carry))"

text \<open>The body of the loop of the XOR branch of \<^verbatim>\<open>ALU_4b.compute\<close>.\<close>

definition xor_iter :: "int \<Rightarrow> int \<Rightarrow> nat \<Rightarrow> int \<Rightarrow> int" where
  "xor_iter a b i result =
     (let a_bit = drop_bit i a AND 1;
          b_bit = drop_bit i b AND 1;
          xor_bit = XOR_1b_compute (a_bit \<noteq> 0) (b_bit \<noteq> 0)
      in result OR push_bit i (of_bool xor_bit))"

definition ALU_4b_compute :: "int \<Rightarrow> int \<Rightarrow> int \<Rightarrow> bool \<Rightarrow> int \<times> bool" where
  "ALU_4b_compute a0 b0 s0 cin =
     (let a = a0 AND 15; b = b0 AND 15; s = s0 AND 7 in
      if s = 0 then (a, False)
      else if s = 1 then Adder_4b_compute a b cin
      else if s = 2 then Adder_4b_compute a (NOT b AND 15) True
      else if s = 3 then (a AND b, False)
      else if s = 4 then (a OR b, False)
      else if s = 5 then (fold (xor_iter a b) [0, 1, 2, 3] 0, False)
      else if s = 6 then (NOT a AND 15, False)
      else (0, False))"

section \<open>Python values the processor model needs\<close>

text \<open>The exceptions a call of \<^verbatim>\<open>clock_cycle\<close> can raise, and what a call yields: the
  returned flag, or the exception. A raise does not undo the assignments made before it,
  so every operation returns the processor as the call leaves it.\<close>

datatype exn = IndexError | AttributeError

datatype outcome = Returned bool | Raised exn

text \<open>\<^verbatim>\<open>xs[i]\<close> and \<^verbatim>\<open>xs[i] = v\<close> on a Python list: an index below zero counts from the end,
  and \<open>None\<close> stands for IndexError.\<close>

definition py_index :: "'a list \<Rightarrow> int \<Rightarrow> nat option" where
  "py_index xs i =
     (if 0 \<le> i \<and> i < int (length xs) then Some (nat i)
      else if i < 0 \<and> 0 \<le> int (length xs) + i then Some (nat (int (length xs) + i))
      else None)"

definition py_getitem :: "'a list \<Rightarrow> int \<Rightarrow> 'a option" where
  "py_getitem xs i = map_option (\<lambda>k. xs ! k) (py_index xs i)"

definition py_setitem :: "'a list \<Rightarrow> int \<Rightarrow> 'a \<Rightarrow> 'a list option" where
  "py_setitem xs i v = map_option (\<lambda>k. xs[k := v]) (py_index xs i)"

section \<open>The processor of \<^verbatim>\<open>simulator_gui.py\<close>\<close>

datatype FSMState = INIT | FETCH | LOAD | EXECUTE | STORE

fun FSMState_value :: "FSMState \<Rightarrow> int" where
  "FSMState_value INIT = 0"
| "FSMState_value FETCH = 1"
| "FSMState_value LOAD = 2"
| "FSMState_value EXECUTE = 3"
| "FSMState_value STORE = 4"

text \<open>The dictionary \<^verbatim>\<open>waveform_history\<close> has a fixed set of keys, each holding a list.\<close>

record waveform =
  wf_clk :: "nat list"
  wf_pc :: "nat list"
  wf_state :: "int list"
  wf_alu_out :: "int list"
  wf_ram_addr :: "int list"
  wf_ram_data :: "int list"

definition waveform_empty :: waveform where
  "waveform_empty =
     \<lparr>wf_clk = [], wf_pc = [], wf_state = [], wf_alu_out = [],
      wf_ram_addr = [], wf_ram_data = []\<rparr>"

text \<open>The attributes \<^verbatim>\<open>loaded_op1\<close>, \<^verbatim>\<open>loaded_op2\<close>, \<^verbatim>\<open>loaded_opcode\<close>, \<^verbatim>\<open>loaded_mem\<close> are not
  created by \<^verbatim>\<open>__init__\<close>; the LOAD branch creates all four together, and nothing deletes
  them. They are one optional group: \<open>None\<close> while the attributes do not exist.\<close>

record latch =
  loaded_op1 :: int
  loaded_op2 :: int
  loaded_opcode :: int
  loaded_mem :: int

text \<open>A line of \<^verbatim>\<open>execution_log\<close> is the cycle number and a message; the message keeps
  the values the f-string formats, not their rendering.\<close>

datatype log_msg =
    Log_INIT
  | Log_FETCH_complete
  | Log_FETCH nat int
  | Log_LOAD int int
  | Log_EXECUTE string int int int int
  | Log_STORE int int

text \<open>\<^verbatim>\<open>pc\<close> and \<^verbatim>\<open>cycle_count\<close> are only ever assigned 0 and incremented by 1, so they are
  natural numbers. \<^verbatim>\<open>program\<close> is not created by \<^verbatim>\<open>__init__\<close> in this file: \<open>None\<close> until
  \<^verbatim>\<open>load_program\<close> assigns it.\<close>

record Processor =
  memory :: "int list"
  pc :: nat
  state :: FSMState
  instruction :: int
  alu_result :: int
  alu_cout :: bool
  cycle_count :: nat
  execution_log :: "(nat \<times> log_msg) list"
  waveform_history :: waveform
  program :: "int list option"
  loaded :: "latch option"

definition Processor_init :: Processor where
  "Processor_init =
     \<lparr>memory = replicate 16 0, pc = 0, state = INIT, instruction = 0, alu_result = 0,
      alu_cout = False, cycle_count = 0, execution_log = [],
      waveform_history = waveform_empty, program = None, loaded = None\<rparr>"

definition reset :: "Processor \<Rightarrow> Processor" where
  "reset s =
     s\<lparr>pc := 0, state := INIT, instruction := 0, alu_result := 0, alu_cout := False,
       cycle_count := 0, execution_log := [], waveform_history := waveform_empty\<rparr>"

definition load_program :: "int list \<Rightarrow> Processor \<Rightarrow> Processor" where
  "load_program p s = s\<lparr>program := Some p, pc := 0\<rparr>"

definition Processor_log :: "log_msg \<Rightarrow> Processor \<Rightarrow> Processor" where
  "Processor_log m s = s\<lparr>execution_log := execution_log s @ [(cycle_count s, m)]\<rparr>"

text \<open>The four appends at the head of \<^verbatim>\<open>clock_cycle\<close>.\<close>

definition record_waveform :: "Processor \<Rightarrow> Processor" where
  "record_waveform s =
     s\<lparr>waveform_history := (waveform_history s)
        \<lparr>wf_clk := wf_clk (waveform_history s) @ [cycle_count s mod 2],
         wf_pc := wf_pc (waveform_history s) @ [pc s],
         wf_state := wf_state (waveform_history s) @ [FSMState_value (state s)],
         wf_alu_out := wf_alu_out (waveform_history s) @ [alu_result s]\<rparr>\<rparr>"

text \<open>The two appends to \<^verbatim>\<open>ram_addr\<close> and \<^verbatim>\<open>ram_data\<close> of the LOAD and STORE branches.\<close>

definition record_ram :: "int \<Rightarrow> int \<Rightarrow> Processor \<Rightarrow> Processor" where
  "record_ram addr data s =
     s\<lparr>waveform_history := (waveform_history s)
        \<lparr>wf_ram_addr := wf_ram_addr (waveform_history s) @ [addr],
         wf_ram_data := wf_ram_data (waveform_history s) @ [data]\<rparr>\<rparr>"

definition op_names :: "string list" where
  "op_names = [''STO'', ''ADD'', ''SUB'', ''AND'', ''OR'', ''XOR'', ''NOT'']"

text \<open>The branches of \<^verbatim>\<open>clock_cycle\<close>, one definition for each state but INIT.\<close>

definition fetch_phase :: "Processor \<Rightarrow> outcome \<times> Processor" where
  "fetch_phase s =
     (case program s of
        None \<Rightarrow> (Raised AttributeError, s)
      | Some p \<Rightarrow>
          if pc s \<ge> length p then (Returned False, Processor_log Log_FETCH_complete s)
          else
            let s1 = s\<lparr>instruction := p ! pc s\<rparr>;
                s2 = Processor_log (Log_FETCH (pc s1) (instruction s1)) s1
            in (Returned True, s2\<lparr>pc := pc s2 + 1, state := LOAD\<rparr>))"

definition load_phase :: "Processor \<Rightarrow> outcome \<times> Processor" where
  "load_phase s =
     (let opcode = drop_bit 8 (instruction s) AND 7;
          op1 = drop_bit 4 (instruction s) AND 15;
          op2 = instruction s AND 15
      in (case py_getitem (memory s) op1 of
            None \<Rightarrow> (Raised IndexError, s)
          | Some mem_value \<Rightarrow>
              let s1 = Processor_log (Log_LOAD op1 mem_value) s;
                  s2 = s1\<lparr>loaded := Some \<lparr>loaded_op1 = op1, loaded_op2 = op2,
                                          loaded_opcode = opcode, loaded_mem = mem_value\<rparr>\<rparr>;
                  s3 = record_ram op1 mem_value s2
              in (Returned True, s3\<lparr>state := EXECUTE\<rparr>)))"

text \<open>The opcode-to-ALU routing of the EXECUTE branch: the values of
  \<^verbatim>\<open>(alu_s, alu_cin, alu_a)\<close> after the \<^verbatim>\<open>if\<close>/\<^verbatim>\<open>elif\<close> chain, which has no \<^verbatim>\<open>else\<close> and so
  keeps the defaults \<^verbatim>\<open>alu_s = 0\<close>, \<^verbatim>\<open>alu_cin = False\<close>, \<^verbatim>\<open>alu_a = mem_val\<close> for any other opcode.\<close>

definition alu_routing :: "int \<Rightarrow> int \<Rightarrow> int \<Rightarrow> int \<times> bool \<times> int" where
  "alu_routing opcode op2 mem_val =
     (if opcode = 0 then (0, False, op2)
      else if opcode = 1 then (1, False, mem_val)
      else if opcode = 2 then (2, True, mem_val)
      else if opcode = 3 then (3, False, mem_val)
      else if opcode = 4 then (4, False, mem_val)
      else if opcode = 5 then (5, False, mem_val)
      else if opcode = 6 then (6, False, mem_val)
      else (0, False, mem_val))"

definition execute_phase :: "Processor \<Rightarrow> outcome \<times> Processor" where
  "execute_phase s =
     (case loaded s of
        None \<Rightarrow> (Raised AttributeError, s)
      | Some l \<Rightarrow>
          let opcode = loaded_opcode l;
              op2 = loaded_op2 l;
              mem_val = loaded_mem l;
              alu_b = op2
          in (case py_getitem op_names opcode of
                None \<Rightarrow> (Raised IndexError, s)
              | Some op_name \<Rightarrow>
                  (case alu_routing opcode op2 mem_val of
                     (alu_s, alu_cin, alu_a) \<Rightarrow>
                       (case ALU_4b_compute alu_a alu_b alu_s alu_cin of
                          (r, c) \<Rightarrow>
                            let s1 = s\<lparr>alu_result := r, alu_cout := c\<rparr>;
                                s2 = Processor_log (Log_EXECUTE op_name alu_a alu_b alu_s r) s1
                            in (Returned True, s2\<lparr>state := STORE\<rparr>)))))"

definition store_phase :: "Processor \<Rightarrow> outcome \<times> Processor" where
  "store_phase s =
     (case loaded s of
        None \<Rightarrow> (Raised AttributeError, s)
      | Some l \<Rightarrow>
          (case py_setitem (memory s) (loaded_op1 l) (alu_result s) of
             None \<Rightarrow> (Raised IndexError, s)
           | Some m \<Rightarrow>
               let s1 = s\<lparr>memory := m\<rparr>;
                   s2 = Processor_log (Log_STORE (loaded_op1 l) (alu_result s1)) s1;
                   s3 = record_ram (loaded_op1 l) (alu_result s2) s2
               in (Returned True, s3\<lparr>state := FETCH\<rparr>)))"

definition clock_cycle :: "Processor \<Rightarrow> outcome \<times> Processor" where
  "clock_cycle s0 =
     (let s = record_waveform (s0\<lparr>cycle_count := cycle_count s0 + 1\<rparr>) in
      case state s of
        INIT \<Rightarrow> (Returned True, (Processor_log Log_INIT s)\<lparr>state := FETCH\<rparr>)
      | FETCH \<Rightarrow> fetch_phase s
      | LOAD \<Rightarrow> load_phase s
      | EXECUTE \<Rightarrow> execute_phase s
      | STORE \<Rightarrow> store_phase s)"

text \<open>A caller's sequence of \<open>n\<close> calls of \<^verbatim>\<open>clock_cycle\<close>: what each call yielded, in call
  order, and the processor after the last one.\<close>

fun run :: "nat \<Rightarrow> Processor \<Rightarrow> outcome list \<times> Processor" where
  "run 0 s = ([], s)"
| "run (Suc n) s =
     (case clock_cycle s of (r, s1) \<Rightarrow>
        (case run n s1 of (rs, s2) \<Rightarrow> (r # rs, s2)))"

section \<open>The processor of \<^verbatim>\<open>simulator_gui_enhanced.py\<close>\<close>

text \<open>The second copy of the class \<^verbatim>\<open>Processor\<close>. It differs from the first in three places:
  \<^verbatim>\<open>__init__\<close> creates \<^verbatim>\<open>program\<close> as the empty list, \<^verbatim>\<open>waveform_history\<close> has a seventh key
  \<^verbatim>\<open>'instruction'\<close>, and the SUB branch of EXECUTE leaves \<^verbatim>\<open>alu_cin\<close> at \<^verbatim>\<open>False\<close>.\<close>

record waveform_enh = waveform +
  wf_instruction :: "int list"

definition waveform_enh_empty :: waveform_enh where
  "waveform_enh_empty =
     \<lparr>wf_clk = [], wf_pc = [], wf_state = [], wf_alu_out = [],
      wf_ram_addr = [], wf_ram_data = [], wf_instruction = []\<rparr>"

record Processor_enh =
  memory_e :: "int list"
  pc_e :: nat
  state_e :: FSMState
  instruction_e :: int
  alu_result_e :: int
  alu_cout_e :: bool
  cycle_count_e :: nat
  execution_log_e :: "(nat \<times> log_msg) list"
  program_e :: "int list"
  waveform_history_e :: waveform_enh
  loaded_e :: "latch option"

definition Processor_enh_init :: Processor_enh where
  "Processor_enh_init =
     \<lparr>memory_e = replicate 16 0, pc_e = 0, state_e = INIT, instruction_e = 0,
      alu_result_e = 0, alu_cout_e = False, cycle_count_e = 0, execution_log_e = [],
      program_e = [], waveform_history_e = waveform_enh_empty, loaded_e = None\<rparr>"

text \<open>\<^verbatim>\<open>{k: [] for k in self.waveform_history}\<close> maps each of the seven keys to a new empty
  list.\<close>

definition reset_enh :: "Processor_enh \<Rightarrow> Processor_enh" where
  "reset_enh s =
     s\<lparr>pc_e := 0, state_e := INIT, instruction_e := 0, alu_result_e := 0,
       alu_cout_e := False, cycle_count_e := 0, execution_log_e := [],
       waveform_history_e := waveform_enh_empty\<rparr>"

definition load_program_enh :: "int list \<Rightarrow> Processor_enh \<Rightarrow> Processor_enh" where
  "load_program_enh p s = s\<lparr>program_e := p, pc_e := 0\<rparr>"

definition Processor_log_enh :: "log_msg \<Rightarrow> Processor_enh \<Rightarrow> Processor_enh" where
  "Processor_log_enh m s = s\<lparr>execution_log_e := execution_log_e s @ [(cycle_count_e s, m)]\<rparr>"

definition record_waveform_enh :: "Processor_enh \<Rightarrow> Processor_enh" where
  "record_waveform_enh s =
     s\<lparr>waveform_history_e := (waveform_history_e s)
        \<lparr>wf_clk := wf_clk (waveform_history_e s) @ [cycle_count_e s mod 2],
         wf_pc := wf_pc (waveform_history_e s) @ [pc_e s],
         wf_state := wf_state (waveform_history_e s) @ [FSMState_value (state_e s)],
         wf_alu_out := wf_alu_out (waveform_history_e s) @ [alu_result_e s],
         wf_instruction := wf_instruction (waveform_history_e s) @ [instruction_e s]\<rparr>\<rparr>"

definition record_ram_enh :: "int \<Rightarrow> int \<Rightarrow> Processor_enh \<Rightarrow> Processor_enh" where
  "record_ram_enh addr data s =
     s\<lparr>waveform_history_e := (waveform_history_e s)
        \<lparr>wf_ram_addr := wf_ram_addr (waveform_history_e s) @ [addr],
         wf_ram_data := wf_ram_data (waveform_history_e s) @ [data]\<rparr>\<rparr>"

definition fetch_phase_enh :: "Processor_enh \<Rightarrow> outcome \<times> Processor_enh" where
  "fetch_phase_enh s =
     (if pc_e s \<ge> length (program_e s)
      then (Returned False, Processor_log_enh Log_FETCH_complete s)
      else
        let s1 = s\<lparr>instruction_e := program_e s ! pc_e s\<rparr>;
            s2 = Processor_log_enh (Log_FETCH (pc_e s1) (instruction_e s1)) s1
        in (Returned True, s2\<lparr>pc_e := pc_e s2 + 1, state_e := LOAD\<rparr>))"

definition load_phase_enh :: "Processor_enh \<Rightarrow> outcome \<times> Processor_enh" where
  "load_phase_enh s =
     (let opcode = drop_bit 8 (instruction_e s) AND 7;
          op1 = drop_bit 4 (instruction_e s) AND 15;
          op2 = instruction_e s AND 15
      in (case py_getitem (memory_e s) op1 of
            None \<Rightarrow> (Raised IndexError, s)
          | Some mem_value \<Rightarrow>
              let s1 = Processor_log_enh (Log_LOAD op1 mem_value) s;
                  s2 = s1\<lparr>loaded_e := Some \<lparr>loaded_op1 = op1, loaded_op2 = op2,
                                            loaded_opcode = opcode, loaded_mem = mem_value\<rparr>\<rparr>;
                  s3 = record_ram_enh op1 mem_value s2
              in (Returned True, s3\<lparr>state_e := EXECUTE\<rparr>)))"

text \<open>The routing of the EXECUTE branch of this file: as \<open>alu_routing\<close>, but the SUB branch
  assigns only \<^verbatim>\<open>alu_s\<close>.\<close>

definition alu_routing_enh :: "int \<Rightarrow> int \<Rightarrow> int \<Rightarrow> int \<times> bool \<times> int" where
  "alu_routing_enh opcode op2 mem_val =
     (if opcode = 0 then (0, False, op2)
      else if opcode = 1 then (1, False, mem_val)
      else if opcode = 2 then (2, False, mem_val)
      else if opcode = 3 then (3, False, mem_val)
      else if opcode = 4 then (4, False, mem_val)
      else if opcode = 5 then (5, False, mem_val)
      else if opcode = 6 then (6, False, mem_val)
      else (0, False, mem_val))"

definition execute_phase_enh :: "Processor_enh \<Rightarrow> outcome \<times> Processor_enh" where
  "execute_phase_enh s =
     (case loaded_e s of
        None \<Rightarrow> (Raised AttributeError, s)
      | Some l \<Rightarrow>
          let opcode = loaded_opcode l;
              mem_val = loaded_mem l;
              op2 = loaded_op2 l;
              alu_b = op2
          in (case py_getitem op_names opcode of
                None \<Rightarrow> (Raised IndexError, s)
              | Some op_name \<Rightarrow>
                  (case alu_routing_enh opcode op2 mem_val of
                     (alu_s, alu_cin, alu_a) \<Rightarrow>
                       (case ALU_4b_compute alu_a alu_b alu_s alu_cin of
                          (r, c) \<Rightarrow>
                            let s1 = s\<lparr>alu_result_e := r, alu_cout_e := c\<rparr>;
                                s2 = Processor_log_enh
                                       (Log_EXECUTE op_name alu_a alu_b alu_s r) s1
                            in (Returned True, s2\<lparr>state_e := STORE\<rparr>)))))"

definition store_phase_enh :: "Processor_enh \<Rightarrow> outcome \<times> Processor_enh" where
  "store_phase_enh s =
     (case loaded_e s of
        None \<Rightarrow> (Raised AttributeError, s)
      | Some l \<Rightarrow>
          (case py_setitem (memory_e s) (loaded_op1 l) (alu_result_e s) of
             None \<Rightarrow> (Raised IndexError, s)
           | Some m \<Rightarrow>
               let s1 = s\<lparr>memory_e := m\<rparr>;
                   s2 = Processor_log_enh (Log_STORE (loaded_op1 l) (alu_result_e s1)) s1;
                   s3 = record_ram_enh (loaded_op1 l) (alu_result_e s2) s2
               in (Returned True, s3\<lparr>state_e := FETCH\<rparr>)))"

definition clock_cycle_enh :: "Processor_enh \<Rightarrow> outcome \<times> Processor_enh" where
  "clock_cycle_enh s0 =
     (let s = record_waveform_enh (s0\<lparr>cycle_count_e := cycle_count_e s0 + 1\<rparr>) in
      case state_e s of
        INIT \<Rightarrow> (Returned True, (Processor_log_enh Log_INIT s)\<lparr>state_e := FETCH\<rparr>)
      | FETCH \<Rightarrow> fetch_phase_enh s
      | LOAD \<Rightarrow> load_phase_enh s
      | EXECUTE \<Rightarrow> execute_phase_enh s
      | STORE \<Rightarrow> store_phase_enh s)"

section \<open>Observable traces\<close>

text \<open>What a reader of the processor sees after a call: Memory, PC, ControlState, the ALU
  result and the ALU carry-out. A trace pairs what each call yielded with that view.\<close>

type_synonym observation = "int list \<times> nat \<times> FSMState \<times> int \<times> bool"

definition observe :: "Processor \<Rightarrow> observation" where
  "observe s = (memory s, pc s, state s, alu_result s, alu_cout s)"

definition observe_enh :: "Processor_enh \<Rightarrow> observation" where
  "observe_enh s = (memory_e s, pc_e s, state_e s, alu_result_e s, alu_cout_e s)"

fun trace :: "nat \<Rightarrow> Processor \<Rightarrow> (outcome \<times> observation) list" where
  "trace 0 s = []"
| "trace (Suc n) s =
     (case clock_cycle s of (r, s1) \<Rightarrow> (r, observe s1) # trace n s1)"

fun trace_enh :: "nat \<Rightarrow> Processor_enh \<Rightarrow> (outcome \<times> observation) list" where
  "trace_enh 0 s = []"
| "trace_enh (Suc n) s =
     (case clock_cycle_enh s of (r, s1) \<Rightarrow> (r, observe_enh s1) # trace_enh n s1)"

text \<open>The two processors agree on every field they share.\<close>

definition agree :: "Processor \<Rightarrow> Processor_enh \<Rightarrow> bool" where
  "agree s e =
     (memory s = memory_e e \<and> pc s = pc_e e \<and> state s = state_e e \<and>
      instruction s = instruction_e e \<and> alu_result s = alu_result_e e \<and>
      alu_cout s = alu_cout_e e \<and> cycle_count s = cycle_count_e e \<and>
      execution_log s = execution_log_e e \<and> program s = Some (program_e e) \<and>
      loaded s = loaded_e e \<and>
      wf_clk (waveform_history s) = wf_clk (waveform_history_e e) \<and>
      wf_pc (waveform_history s) = wf_pc (waveform_history_e e) \<and>
      wf_state (waveform_history s) = wf_state (waveform_history_e e) \<and>
      wf_alu_out (waveform_history s) = wf_alu_out (waveform_history_e e) \<and>
      wf_ram_addr (waveform_history s) = wf_ram_addr (waveform_history_e e) \<and>
      wf_ram_data (waveform_history s) = wf_ram_data (waveform_history_e e))"

text \<open>The addresses below 16 at which two memories differ.\<close>

definition changed_addrs :: "int list \<Rightarrow> int list \<Rightarrow> nat list" where
  "changed_addrs m m' = filter (\<lambda>i. m ! i \<noteq> m' ! i) [0 ..< 16]"

section \<open>The loop invariant of the ripple adder\<close>

text \<open>After the passes for the bits below \<open>i\<close>, \<^verbatim>\<open>result\<close> holds the low \<open>i\<close> bits of the sum
  and \<^verbatim>\<open>carry\<close> the carry into bit \<open>i\<close>.\<close>

definition adder_inv :: "int \<Rightarrow> int \<Rightarrow> bool \<Rightarrow> nat \<Rightarrow> int \<times> bool \<Rightarrow> bool" where
  "adder_inv a b cin i rc =
     (0 \<le> fst rc \<and> fst rc < 2 ^ i \<and>
      fst rc + 2 ^ i * of_bool (snd rc) = take_bit i a + take_bit i b + of_bool cin)"

section \<open>The ripple adder and the ALU\<close>

lemma FA_1b_arith:
  "FA_1b_compute a b c = (s, co) \<Longrightarrow>
     (of_bool s :: int) + 2 * of_bool co = of_bool a + of_bool b + of_bool c"
  by (cases a; cases b; cases c) (auto simp: FA_1b_compute_def XOR_1b_compute_def)

lemma bit_test: "(drop_bit i (a::int) AND 1 \<noteq> 0) = bit a i"
  by (simp add: bit_iff_and_drop_bit_eq_1 and_one_eq mod_2_eq_odd)

lemma or_push_bit_add:
  assumes "0 \<le> r" "r < 2 ^ i"
  shows "(r::int) OR push_bit i (of_bool s) = r + 2 ^ i * of_bool s"
proof -
  have "take_bit i r = r" using assms by (simp add: take_bit_int_eq_self)
  then have low: "bit r n \<Longrightarrow> n < i" for n
    by (metis bit_take_bit_iff)
  have "\<not> bit r n \<or> \<not> bit (push_bit i (of_bool s :: int)) n" for n
    using low [of n] by (auto simp: bit_push_bit_iff)
  then have "r + push_bit i (of_bool s) = r OR push_bit i (of_bool s)"
    by (rule disjunctive_add)
  then show ?thesis by (simp add: push_bit_eq_mult mult.commute)
qed

lemma adder_iter_FA:
  assumes "0 \<le> r" "r < 2 ^ i" "FA_1b_compute (bit a i) (bit b i) c = (s, c')"
  shows "adder_iter a b i (r, c) = (r + 2 ^ i * of_bool s, c')"
  using assms by (simp add: adder_iter_def bit_test or_push_bit_add)

lemma adder_iter_inv:
  assumes "adder_inv a b cin i rc"
  shows "adder_inv a b cin (Suc i) (adder_iter a b i rc)"
proof -
  obtain r c where rc: "rc = (r, c)" by (cases rc)
  obtain s c' where fa: "FA_1b_compute (bit a i) (bit b i) c = (s, c')"
    by (cases "FA_1b_compute (bit a i) (bit b i) c")
  from assms rc have r: "0 \<le> r" "r < 2 ^ i"
    and eq: "r + 2 ^ i * of_bool c = take_bit i a + take_bit i b + of_bool cin"
    by (simp_all add: adder_inv_def)
  have step: "adder_iter a b i rc = (r + 2 ^ i * of_bool s, c')"
    unfolding rc by (rule adder_iter_FA [OF r fa])
  have ar: "(of_bool s :: int) + 2 * of_bool c' = of_bool (bit a i) + of_bool (bit b i) + of_bool c"
    by (rule FA_1b_arith [OF fa])
  have "r + 2 ^ i * of_bool s + 2 ^ Suc i * of_bool c'
        = r + 2 ^ i * (of_bool s + 2 * of_bool c')"
    by (simp add: algebra_simps)
  also have "\<dots> = (r + 2 ^ i * of_bool c) + 2 ^ i * of_bool (bit a i) + 2 ^ i * of_bool (bit b i)"
    unfolding ar by (simp add: algebra_simps)
  also have "\<dots> = take_bit (Suc i) a + take_bit (Suc i) b + of_bool cin"
    by (simp add: eq take_bit_Suc_from_most)
  finally have e: "r + 2 ^ i * of_bool s + 2 ^ Suc i * of_bool c'
     = take_bit (Suc i) a + take_bit (Suc i) b + of_bool cin" .
  have "0 \<le> r + 2 ^ i * of_bool s" using r by simp
  moreover have "r + 2 ^ i * of_bool s < 2 ^ Suc i" using r by (cases s) simp_all
  ultimately show ?thesis using e by (simp add: adder_inv_def step)
qed

lemma adder_fold_inv: "adder_inv a b cin 4 (fold (adder_iter a b) [0, 1, 2, 3] (0, cin))"
proof -
  have i0: "adder_inv a b cin 0 (0, cin)" by (simp add: adder_inv_def)
  have i1: "adder_inv a b cin 1 (adder_iter a b 0 (0, cin))"
    using adder_iter_inv [OF i0] by simp
  have i2: "adder_inv a b cin 2 (adder_iter a b 1 (adder_iter a b 0 (0, cin)))"
    using adder_iter_inv [OF i1] by (simp add: numeral_2_eq_2)
  have i3: "adder_inv a b cin 3 (adder_iter a b 2 (adder_iter a b 1 (adder_iter a b 0 (0, cin))))"
    using adder_iter_inv [OF i2] by (simp add: numeral_3_eq_3 numeral_2_eq_2)
  have i4: "adder_inv a b cin (Suc 3) (adder_iter a b 3 (adder_iter a b 2 (adder_iter a b 1 (adder_iter a b 0 (0, cin)))))"
    by (rule adder_iter_inv [OF i3])
  have "Suc 3 = 4" by simp
  with i4 show ?thesis by simp
qed

lemma Adder_4b_general:
  "Adder_4b_compute a b cin =
     ((take_bit 4 a + take_bit 4 b + of_bool cin) mod 16,
      16 \<le> take_bit 4 a + take_bit 4 b + of_bool cin)"
proof -
  obtain r c where f: "fold (adder_iter a b) [0, 1, 2, 3] (0, cin) = (r, c)"
    by (cases "fold (adder_iter a b) [0, 1, 2, 3] (0, cin)")
  have inv: "adder_inv a b cin 4 (r, c)"
    using adder_fold_inv [of a b cin] by (simp only: f)
  then have r: "0 \<le> r" "r < 16"
    and eq: "r + 16 * of_bool c = take_bit 4 a + take_bit 4 b + of_bool cin"
    by (simp_all add: adder_inv_def)
  have m: "r AND 15 = r"
  proof -
    have "r AND mask 4 = r" using r by (simp add: take_bit_int_eq_self flip: take_bit_eq_mask)
    then show ?thesis by (simp add: mask_eq_exp_minus_1)
  qed
  have "(take_bit 4 a + take_bit 4 b + of_bool cin) mod 16 = r"
    using r eq by (cases c) (simp_all flip: eq)
  moreover have "(16 \<le> take_bit 4 a + take_bit 4 b + of_bool cin) = c"
    using r eq by (cases c) simp_all
  ultimately show ?thesis
    unfolding Adder_4b_compute_def using f m by simp
qed

text \<open>The result of the adder, read off the chain of four full adders: stage \<open>i\<close> adds bit
  \<open>i\<close> of both operands and the carry of stage \<open>i - 1\<close>.\<close>

lemma Adder_4b_chain:
  assumes "FA_1b_compute (bit a 0) (bit b 0) cin = (s0, c0)"
      and "FA_1b_compute (bit a 1) (bit b 1) c0 = (s1, c1)"
      and "FA_1b_compute (bit a 2) (bit b 2) c1 = (s2, c2)"
      and "FA_1b_compute (bit a 3) (bit b 3) c2 = (s3, c3)"
  shows "Adder_4b_compute a b cin =
           (of_bool s0 + 2 * of_bool s1 + 4 * of_bool s2 + 8 * of_bool s3, c3)"
proof -
  have e0: "adder_iter a b 0 (0, cin) = (of_bool s0, c0)"
    using adder_iter_FA [of 0 0 a b cin s0 c0] assms(1) by simp
  have e1: "adder_iter a b 1 (of_bool s0, c0) = (of_bool s0 + 2 * of_bool s1, c1)"
    using adder_iter_FA [of "of_bool s0" 1 a b c0 s1 c1] assms(2) by simp
  have e2: "adder_iter a b 2 (of_bool s0 + 2 * of_bool s1, c1)
              = (of_bool s0 + 2 * of_bool s1 + 4 * of_bool s2, c2)"
    using adder_iter_FA [of "of_bool s0 + 2 * of_bool s1" 2 a b c1 s2 c2] assms(3)
    by (cases s0; cases s1) simp_all
  have e3: "adder_iter a b 3 (of_bool s0 + 2 * of_bool s1 + 4 * of_bool s2, c2)
              = (of_bool s0 + 2 * of_bool s1 + 4 * of_bool s2 + 8 * of_bool s3, c3)"
    using adder_iter_FA [of "of_bool s0 + 2 * of_bool s1 + 4 * of_bool s2" 3 a b c2 s3 c3] assms(4)
    by (cases s0; cases s1; cases s2) simp_all
  have m: "(of_bool s0 + 2 * of_bool s1 + 4 * of_bool s2 + 8 * of_bool s3 :: int) AND 15
            = of_bool s0 + 2 * of_bool s1 + 4 * of_bool s2 + 8 * of_bool s3"
    by (cases s0; cases s1; cases s2; cases s3) simp_all
  have "fold (adder_iter a b) [0, 1, 2, 3] (0, cin)
          = adder_iter a b 3 (adder_iter a b 2 (adder_iter a b 1 (adder_iter a b 0 (0, cin))))"
    by (simp only: fold_simps o_apply id_apply)
  also have "\<dots> = (of_bool s0 + 2 * of_bool s1 + 4 * of_bool s2 + 8 * of_bool s3, c3)"
    by (simp only: e0 e1 e2 e3)
  finally show ?thesis
    by (simp only: Adder_4b_compute_def prod.case m)
qed

lemma nibble_and15: "0 \<le> a \<Longrightarrow> a \<le> 15 \<Longrightarrow> (a::int) AND 15 = a"
proof -
  assume "0 \<le> a" "a \<le> 15"
  then have "a AND mask 4 = a" by (simp add: take_bit_int_eq_self flip: take_bit_eq_mask)
  then show ?thesis by (simp add: mask_eq_exp_minus_1)
qed

lemma not_and15: "0 \<le> b \<Longrightarrow> b \<le> 15 \<Longrightarrow> NOT (b::int) AND 15 = 15 - b"
proof -
  assume b: "0 \<le> b" "b \<le> 15"
  have "NOT b AND mask 4 = mask 4 - take_bit 4 b"
    by (simp add: take_bit_not_eq_mask_diff flip: take_bit_eq_mask)
  then show ?thesis using b by (simp add: mask_eq_exp_minus_1 take_bit_int_eq_self)
qed

text \<open>
  C4. For all \<open>a\<close>, \<open>b\<close> in [0,15] and every carry-in, the 4-bit ripple adder returns the sum
  \<open>(a + b + cin) mod 16\<close> and the carry-out \<open>a + b + cin \<ge> 16\<close>; the result is that of four
  1-bit full adders chained from bit 0 to bit 3, each taking the carry of the stage below
  it, the carry-out being the carry of the last stage.
\<close>

theorem Adder_4b_compute_sum:
  assumes "0 \<le> a" "a \<le> 15" "0 \<le> b" "b \<le> 15"
  shows "Adder_4b_compute a b cin
           = ((a + b + of_bool cin) mod 16, 16 \<le> a + b + of_bool cin)
         \<and> (\<exists>s0 c0 s1 c1 s2 c2 s3 c3.
               FA_1b_compute (bit a 0) (bit b 0) cin = (s0, c0) \<and>
               FA_1b_compute (bit a 1) (bit b 1) c0 = (s1, c1) \<and>
               FA_1b_compute (bit a 2) (bit b 2) c1 = (s2, c2) \<and>
               FA_1b_compute (bit a 3) (bit b 3) c2 = (s3, c3) \<and>
               Adder_4b_compute a b cin
                 = (of_bool s0 + 2 * of_bool s1 + 4 * of_bool s2 + 8 * of_bool s3, c3))"
proof
  show "Adder_4b_compute a b cin
          = ((a + b + of_bool cin) mod 16, 16 \<le> a + b + of_bool cin)"
    using assms by (simp add: Adder_4b_general take_bit_int_eq_self)
next
  obtain s0 c0 where f0: "FA_1b_compute (bit a 0) (bit b 0) cin = (s0, c0)"
    by (cases "FA_1b_compute (bit a 0) (bit b 0) cin")
  obtain s1 c1 where f1: "FA_1b_compute (bit a 1) (bit b 1) c0 = (s1, c1)"
    by (cases "FA_1b_compute (bit a 1) (bit b 1) c0")
  obtain s2 c2 where f2: "FA_1b_compute (bit a 2) (bit b 2) c1 = (s2, c2)"
    by (cases "FA_1b_compute (bit a 2) (bit b 2) c1")
  obtain s3 c3 where f3: "FA_1b_compute (bit a 3) (bit b 3) c2 = (s3, c3)"
    by (cases "FA_1b_compute (bit a 3) (bit b 3) c2")
  from Adder_4b_chain [OF f0 f1 f2 f3] f0 f1 f2 f3
  show "\<exists>s0 c0 s1 c1 s2 c2 s3 c3.
          FA_1b_compute (bit a 0) (bit b 0) cin = (s0, c0) \<and>
          FA_1b_compute (bit a 1) (bit b 1) c0 = (s1, c1) \<and>
          FA_1b_compute (bit a 2) (bit b 2) c1 = (s2, c2) \<and>
          FA_1b_compute (bit a 3) (bit b 3) c2 = (s3, c3) \<and>
          Adder_4b_compute a b cin
            = (of_bool s0 + 2 * of_bool s1 + 4 * of_bool s2 + 8 * of_bool s3, c3)"
    by blast
qed

theorem Adder_4b_compute_sum_witness:
  "(0::int) \<le> 15 \<and> (15::int) \<le> 15 \<and> (0::int) \<le> 1 \<and> (1::int) \<le> 15
   \<and> Adder_4b_compute 15 1 True = (1, True)"
  using Adder_4b_compute_sum [of 15 1 True] by simp

text \<open>
  C5. For all \<open>a\<close>, \<open>b\<close> in [0,15] and whatever carry-in the caller passes, the ALU with
  select 010 returns what the adder returns on \<open>a\<close>, the one's complement of \<open>b\<close> in four
  bits and carry-in true, and its result is \<open>(a - b) mod 16\<close>.
\<close>

theorem ALU_4b_compute_subtract:
  assumes "0 \<le> a" "a \<le> 15" "0 \<le> b" "b \<le> 15"
  shows "ALU_4b_compute a b 2 cin = Adder_4b_compute a (NOT b AND 15) True
       \<and> fst (ALU_4b_compute a b 2 cin) = (a - b) mod 16"
proof -
  have 1: "ALU_4b_compute a b 2 cin = Adder_4b_compute a (NOT b AND 15) True"
    using assms by (simp add: ALU_4b_compute_def nibble_and15)
  have "fst (Adder_4b_compute a (15 - b) True) = (a + (15 - b) + 1) mod 16"
    using assms by (simp add: Adder_4b_general take_bit_int_eq_self)
  also have "\<dots> = (a - b) mod 16"
  proof -
    have "a + (15 - b) + 1 = (a - b) + 1 * 16" by simp
    then show ?thesis by (simp only: mod_mult_self1)
  qed
  finally show ?thesis using 1 assms by (simp add: not_and15)
qed

theorem ALU_4b_compute_subtract_witness:
  "(0::int) \<le> 3 \<and> (3::int) \<le> 15 \<and> (0::int) \<le> 5 \<and> (5::int) \<le> 15
   \<and> fst (ALU_4b_compute 3 5 2 False) = 14"
proof -
  have "fst (ALU_4b_compute 3 5 2 False) = (3 - 5) mod 16"
    by (rule conjunct2 [OF ALU_4b_compute_subtract]) simp_all
  then show ?thesis by simp
qed

section \<open>One call of \<^verbatim>\<open>clock_cycle\<close> in each state\<close>

lemmas cycle_defs = clock_cycle_def record_waveform_def Processor_log_def fetch_phase_def
  load_phase_def execute_phase_def store_phase_def record_ram_def

lemma and15_range: "0 \<le> (x::int) AND 15" "(x::int) AND 15 < 16"
proof -
  show "0 \<le> x AND 15" by simp
  have "x AND 15 \<le> 15" by (rule AND_upper2) simp
  then show "x AND 15 < 16" by simp
qed

lemma and7_range: "0 \<le> (x::int) AND 7" "(x::int) AND 7 \<le> 7"
proof -
  show "0 \<le> x AND 7" by simp
  show "x AND 7 \<le> 7" by (rule AND_upper2) simp
qed

lemma py_getitem_in_range:
  "0 \<le> i \<Longrightarrow> i < int (length xs) \<Longrightarrow> py_getitem xs i = Some (xs ! nat i)"
  by (simp add: py_getitem_def py_index_def)

lemma py_setitem_in_range:
  "0 \<le> i \<Longrightarrow> i < int (length xs) \<Longrightarrow> py_setitem xs i v = Some (xs[nat i := v])"
  by (simp add: py_setitem_def py_index_def)

lemma py_getitem_op_names:
  "0 \<le> i \<Longrightarrow> i < 7 \<Longrightarrow> \<exists>n. py_getitem op_names i = Some n"
  by (simp add: py_getitem_def py_index_def op_names_def)

lemma fetch_ok:
  assumes "state s = FETCH" "program s = Some p" "pc s < length p"
  shows "fst (clock_cycle s) = Returned True"
    and "state (snd (clock_cycle s)) = LOAD"
    and "pc (snd (clock_cycle s)) = pc s + 1"
    and "memory (snd (clock_cycle s)) = memory s"
    and "instruction (snd (clock_cycle s)) = p ! pc s"
  using assms by (simp_all add: cycle_defs Let_def)

lemma load_ok:
  assumes "state s = LOAD" "length (memory s) = 16"
  shows "fst (clock_cycle s) = Returned True"
    and "state (snd (clock_cycle s)) = EXECUTE"
    and "pc (snd (clock_cycle s)) = pc s"
    and "memory (snd (clock_cycle s)) = memory s"
    and "loaded (snd (clock_cycle s)) =
           Some \<lparr>loaded_op1 = drop_bit 4 (instruction s) AND 15,
                 loaded_op2 = instruction s AND 15,
                 loaded_opcode = drop_bit 8 (instruction s) AND 7,
                 loaded_mem = memory s ! nat (drop_bit 4 (instruction s) AND 15)\<rparr>"
proof -
  have g: "py_getitem (memory s) (drop_bit 4 (instruction s) AND 15)
             = Some (memory s ! nat (drop_bit 4 (instruction s) AND 15))"
    using assms(2) and15_range [of "drop_bit 4 (instruction s)"]
    by (intro py_getitem_in_range) simp_all
  show "fst (clock_cycle s) = Returned True"
    and "state (snd (clock_cycle s)) = EXECUTE"
    and "pc (snd (clock_cycle s)) = pc s"
    and "memory (snd (clock_cycle s)) = memory s"
    and "loaded (snd (clock_cycle s)) =
           Some \<lparr>loaded_op1 = drop_bit 4 (instruction s) AND 15,
                 loaded_op2 = instruction s AND 15,
                 loaded_opcode = drop_bit 8 (instruction s) AND 7,
                 loaded_mem = memory s ! nat (drop_bit 4 (instruction s) AND 15)\<rparr>"
    using assms(1) g by (simp_all add: cycle_defs Let_def)
qed

lemma execute_ok:
  assumes "state s = EXECUTE" "loaded s = Some l" "0 \<le> loaded_opcode l" "loaded_opcode l < 7"
  shows "fst (clock_cycle s) = Returned True"
    and "state (snd (clock_cycle s)) = STORE"
    and "pc (snd (clock_cycle s)) = pc s"
    and "memory (snd (clock_cycle s)) = memory s"
    and "loaded (snd (clock_cycle s)) = Some l"
    and "alu_result (snd (clock_cycle s)) =
           fst (case alu_routing (loaded_opcode l) (loaded_op2 l) (loaded_mem l) of
                  (alu_s, alu_cin, alu_a) \<Rightarrow> ALU_4b_compute alu_a (loaded_op2 l) alu_s alu_cin)"
proof -
  obtain n where g: "py_getitem op_names (loaded_opcode l) = Some n"
    using py_getitem_op_names [OF assms(3,4)] by blast
  show "fst (clock_cycle s) = Returned True"
    and "state (snd (clock_cycle s)) = STORE"
    and "pc (snd (clock_cycle s)) = pc s"
    and "memory (snd (clock_cycle s)) = memory s"
    and "loaded (snd (clock_cycle s)) = Some l"
    and "alu_result (snd (clock_cycle s)) =
           fst (case alu_routing (loaded_opcode l) (loaded_op2 l) (loaded_mem l) of
                  (alu_s, alu_cin, alu_a) \<Rightarrow> ALU_4b_compute alu_a (loaded_op2 l) alu_s alu_cin)"
    using assms(1,2) g by (simp_all add: cycle_defs Let_def split: prod.splits)
qed

lemma store_ok:
  assumes "state s = STORE" "loaded s = Some l" "0 \<le> loaded_op1 l"
          "loaded_op1 l < int (length (memory s))"
  shows "fst (clock_cycle s) = Returned True"
    and "state (snd (clock_cycle s)) = FETCH"
    and "pc (snd (clock_cycle s)) = pc s"
    and "memory (snd (clock_cycle s)) = (memory s)[nat (loaded_op1 l) := alu_result s]"
    and "alu_result (snd (clock_cycle s)) = alu_result s"
  using assms py_setitem_in_range [OF assms(3,4), of "alu_result s"]
  by (simp_all add: cycle_defs Let_def)

lemma run_4:
  "run 4 s =
     (let r1 = clock_cycle s; r2 = clock_cycle (snd r1); r3 = clock_cycle (snd r2);
          r4 = clock_cycle (snd r3)
      in ([fst r1, fst r2, fst r3, fst r4], snd r4))"
  by (simp add: eval_nat_numeral Let_def split: prod.splits)

lemma changed_addrs_update:
  "length m = 16 \<Longrightarrow> set (changed_addrs m (m[k := v])) \<subseteq> {k}"
  by (auto simp: changed_addrs_def) (metis nth_list_update_neq)

lemmas init_defs = Processor_init_def waveform_empty_def load_program_def reset_def
  py_getitem_def py_setitem_def py_index_def op_names_def

lemma halt_step:
  assumes "state s = FETCH" "program s = Some p" "length p \<le> pc s"
  shows "fst (clock_cycle s) = Returned False"
    and "state (snd (clock_cycle s)) = FETCH"
    and "program (snd (clock_cycle s)) = Some p"
    and "pc (snd (clock_cycle s)) = pc s"
    and "memory (snd (clock_cycle s)) = memory s"
  using assms by (simp_all add: cycle_defs Let_def)

section \<open>The instruction cycle\<close>

text \<open>
  C2, as amended. Starting in FETCH with PC below the program length and a 16-cell Memory,
  four calls of \<^verbatim>\<open>clock_cycle\<close> each return \<^verbatim>\<open>True\<close>, pass through LOAD, EXECUTE and STORE
  back to FETCH, and leave PC incremented by exactly 1, for every instruction whose opcode
  is one of the seven defined ones. Memory is written at exactly one address, the \<open>addr\<close>
  field of the instruction: the final Memory is the initial Memory with cell \<open>addr\<close>
  replaced by the ALU result, so no cell other than \<open>addr\<close> differs, and cell \<open>addr\<close> itself
  keeps its value when the ALU result equals what it held.
\<close>

theorem instruction_cycle:
  assumes "state s = FETCH" and "program s = Some p" and "pc s < length p"
      and "length (memory s) = 16"
      and "drop_bit 8 (p ! pc s) AND 7 \<noteq> 7"
  shows "let i = p ! pc s;
             opcode = drop_bit 8 i AND 7;
             addr = nat (drop_bit 4 i AND 15);
             imm = i AND 15;
             result = fst (case alu_routing opcode imm (memory s ! addr) of
                             (alu_s, alu_cin, alu_a) \<Rightarrow> ALU_4b_compute alu_a imm alu_s alu_cin)
         in fst (run 4 s) = [Returned True, Returned True, Returned True, Returned True]
          \<and> map (\<lambda>k. state (snd (run k s))) [1, 2, 3, 4] = [LOAD, EXECUTE, STORE, FETCH]
          \<and> pc (snd (run 4 s)) = pc s + 1
          \<and> memory (snd (run 4 s)) = (memory s)[addr := result]
          \<and> set (changed_addrs (memory s) (memory (snd (run 4 s)))) \<subseteq> {addr}"
proof -
  define s1 where "s1 = snd (clock_cycle s)"
  define s2 where "s2 = snd (clock_cycle s1)"
  define s3 where "s3 = snd (clock_cycle s2)"
  define s4 where "s4 = snd (clock_cycle s3)"
  define i where "i = p ! pc s"
  define l where "l = \<lparr>loaded_op1 = drop_bit 4 i AND 15, loaded_op2 = i AND 15,
                         loaded_opcode = drop_bit 8 i AND 7,
                         loaded_mem = memory s ! nat (drop_bit 4 i AND 15)\<rparr>"
  note f = fetch_ok [OF assms(1,2,3), folded s1_def i_def]
  have len1: "length (memory s1) = 16" using f(4) assms(4) by simp
  note ld = load_ok [OF f(2) len1, folded s2_def, unfolded f(3,4,5), folded l_def]
  have "drop_bit 8 i AND 7 \<le> 7" by (rule and7_range)
  moreover have "drop_bit 8 i AND 7 \<noteq> 7" unfolding i_def by (rule assms(5))
  ultimately have "drop_bit 8 i AND 7 < 7" by linarith
  then have opc: "0 \<le> loaded_opcode l" "loaded_opcode l < 7"
    by (simp_all add: l_def)
  note ex = execute_ok [OF ld(2) ld(5) opc, folded s3_def, unfolded ld(3,4)]
  have "drop_bit 4 i AND 15 < 16" by (rule and15_range)
  then have op1: "0 \<le> loaded_op1 l" "loaded_op1 l < int (length (memory s3))"
    using ex(4) assms(4) by (simp_all add: l_def)
  note st = store_ok [OF ex(2) ex(5) op1, folded s4_def, unfolded ex(3,4,6)]
  have r1: "snd (run 1 s) = s1"
    by (simp add: s1_def case_prod_unfold)
  have r2: "snd (run 2 s) = s2"
    by (simp add: eval_nat_numeral s1_def s2_def split: prod.splits)
  have r3: "snd (run 3 s) = s3"
    by (simp add: eval_nat_numeral s1_def s2_def s3_def split: prod.splits)
  have r4: "run 4 s = ([fst (clock_cycle s), fst (clock_cycle s1), fst (clock_cycle s2),
                        fst (clock_cycle s3)], s4)"
    by (simp add: run_4 Let_def s1_def s2_def s3_def s4_def)
  have outs: "fst (run 4 s) = [Returned True, Returned True, Returned True, Returned True]"
    by (simp add: r4 f(1) ld(1) ex(1) st(1))
  have states: "map (\<lambda>k. state (snd (run k s))) [1, 2, 3, 4] = [LOAD, EXECUTE, STORE, FETCH]"
    by (simp del: run.simps One_nat_def add: r1 r2 r3 r4 f(2) ld(2) ex(2) st(2))
  have pcs: "pc (snd (run 4 s)) = pc s + 1"
    by (simp add: r4 st(3))
  have mem: "memory (snd (run 4 s)) = (memory s)[nat (loaded_op1 l) :=
               fst (case alu_routing (loaded_opcode l) (loaded_op2 l) (loaded_mem l) of
                      (alu_s, alu_cin, alu_a) \<Rightarrow>
                        ALU_4b_compute alu_a (loaded_op2 l) alu_s alu_cin)]"
    by (simp add: r4 st(4))
  have ch: "set (changed_addrs (memory s) (memory (snd (run 4 s)))) \<subseteq> {nat (loaded_op1 l)}"
    unfolding mem by (rule changed_addrs_update [OF assms(4)])
  show ?thesis
    using outs states pcs mem ch
    by (simp add: Let_def l_def i_def)
qed

theorem instruction_cycle_witness:
  "fst (run 4 ((load_program [325] Processor_init)\<lparr>state := FETCH\<rparr>))
     = [Returned True, Returned True, Returned True, Returned True]
   \<and> pc (snd (run 4 ((load_program [325] Processor_init)\<lparr>state := FETCH\<rparr>))) = 1
   \<and> memory (snd (run 4 ((load_program [325] Processor_init)\<lparr>state := FETCH\<rparr>)))
       = (replicate 16 0)[4 := 5]"
proof -
  define s where "s = (load_program [325] Processor_init)\<lparr>state := FETCH\<rparr>"
  have h: "state s = FETCH" "program s = Some [325]" "pc s < length [325::int]"
    "length (memory s) = 16" "drop_bit 8 ([325::int] ! pc s) AND 7 \<noteq> 7"
    by (simp_all add: s_def init_defs)
  have v: "memory s = replicate 16 0" "pc s = 0"
    by (simp_all add: s_def init_defs)
  have alu: "ALU_4b_compute 0 5 1 False = (5, False)"
    by (simp add: ALU_4b_compute_def Adder_4b_general)
  show ?thesis
    using instruction_cycle [OF h]
    by (simp add: Let_def v alu alu_routing_def flip: s_def del: run.simps)
qed

text \<open>
  C2, as stated, fails: STO 0x0,0x0 on the zeroed Memory executes in four calls that return
  \<^verbatim>\<open>True\<close>, and no Memory cell has changed afterwards.
\<close>

theorem instruction_cycle_unchanged_memory:
  "state ((load_program [0] Processor_init)\<lparr>state := FETCH\<rparr>) = FETCH
   \<and> pc ((load_program [0] Processor_init)\<lparr>state := FETCH\<rparr>) < length [0::int]
   \<and> drop_bit 8 ([0::int] ! 0) AND 7 = 0
   \<and> fst (run 4 ((load_program [0] Processor_init)\<lparr>state := FETCH\<rparr>))
        = [Returned True, Returned True, Returned True, Returned True]
   \<and> changed_addrs (memory ((load_program [0] Processor_init)\<lparr>state := FETCH\<rparr>))
        (memory (snd (run 4 ((load_program [0] Processor_init)\<lparr>state := FETCH\<rparr>)))) = []"
proof -
  define s where "s = (load_program [0] Processor_init)\<lparr>state := FETCH\<rparr>"
  have h: "state s = FETCH" "pc s < length [0::int]" "memory s = replicate 16 0"
    by (simp_all add: s_def init_defs)
  have r: "fst (run 4 s) = [Returned True, Returned True, Returned True, Returned True]"
    "memory (snd (run 4 s)) = (replicate 16 0)[0 := 0]"
    by (simp_all add: s_def run_4 Let_def init_defs cycle_defs alu_routing_def
        ALU_4b_compute_def)
  have "(replicate 16 (0::int))[0 := 0] = replicate 16 0"
    by (rule nth_equalityI) (simp_all add: nth_list_update)
  then have "changed_addrs (memory s) (memory (snd (run 4 s))) = []"
    by (simp add: h(3) r(2) changed_addrs_def)
  then show ?thesis
    using h r(1) by (simp flip: s_def del: run.simps)
qed

section \<open>The undefined opcode\<close>

text \<open>
  C1. The program consisting of the one instruction 0x700 (opcode field 7), run from a new
  processor: the calls for INIT, FETCH and LOAD return \<^verbatim>\<open>True\<close> and the call for EXECUTE
  raises IndexError, at the look-up of the opcode's name in a list of seven names, before
  the ALU is called. The ALU itself returns result 0 and carry-out false for select 111.
\<close>

theorem undefined_opcode_raises:
  "fst (run 4 (load_program [1792] Processor_init))
     = [Returned True, Returned True, Returned True, Raised IndexError]
   \<and> drop_bit 8 (1792::int) AND 7 = 7
   \<and> ALU_4b_compute a b 7 cin = (0, False)"
  by (simp add: run_4 Let_def init_defs cycle_defs ALU_4b_compute_def)

section \<open>\<^verbatim>\<open>load_program\<close> and \<^verbatim>\<open>reset\<close>\<close>

text \<open>
  C7. For every processor and every instruction sequence \<open>p\<close>, \<^verbatim>\<open>load_program(p)\<close> makes
  \<open>p\<close> the program and sets PC to 0, and leaves ControlState and Memory as they were, in
  both files.
\<close>

theorem load_program_frame:
  "program (load_program p s) = Some p \<and> pc (load_program p s) = 0
   \<and> state (load_program p s) = state s \<and> memory (load_program p s) = memory s
   \<and> program_e (load_program_enh p e) = p \<and> pc_e (load_program_enh p e) = 0
   \<and> state_e (load_program_enh p e) = state_e e
   \<and> memory_e (load_program_enh p e) = memory_e e"
  by (simp add: load_program_def load_program_enh_def)

text \<open>What \<^verbatim>\<open>reset()\<close> assigns, in both files: PC, ControlState, the latched instruction, the
  ALU result and carry-out, the cycle counter, the execution log and the recorder history.
  The loaded program and the latched decode fields are left as they were.\<close>

lemma reset_fields:
  "pc (reset s) = 0 \<and> state (reset s) = INIT \<and> instruction (reset s) = 0
   \<and> alu_result (reset s) = 0 \<and> alu_cout (reset s) = False \<and> cycle_count (reset s) = 0
   \<and> execution_log (reset s) = [] \<and> waveform_history (reset s) = waveform_empty
   \<and> program (reset s) = program s \<and> loaded (reset s) = loaded s
   \<and> pc_e (reset_enh e) = 0 \<and> state_e (reset_enh e) = INIT \<and> instruction_e (reset_enh e) = 0
   \<and> alu_result_e (reset_enh e) = 0 \<and> alu_cout_e (reset_enh e) = False
   \<and> cycle_count_e (reset_enh e) = 0 \<and> execution_log_e (reset_enh e) = []
   \<and> waveform_history_e (reset_enh e) = waveform_enh_empty
   \<and> program_e (reset_enh e) = program_e e \<and> loaded_e (reset_enh e) = loaded_e e"
  by (simp add: reset_def reset_enh_def)

text \<open>
  C3. \<^verbatim>\<open>reset()\<close> does not restore Memory to its default. A new processor has all 16 cells
  at 0; after the program STO 0x0,0x5 has run, \<^verbatim>\<open>reset()\<close> leaves cell 0 at 5, and the latched
  decode fields of that instruction in place. With the five-instruction program of
  \<^verbatim>\<open>load_default_program\<close> (STO 0x4,0x5; ADD 0x4,0x6; STO 0x1,0xF; SUB 0x1,0x7; NOT 0xF,0x0),
  run from a new processor to its halt in 22 calls, cell 0xF ends at 0xF; after \<^verbatim>\<open>reset()\<close>,
  \<^verbatim>\<open>load_program\<close> of the same program and 22 more calls it ends at 0, because NOT 0xF
  starts from the 0xF that the first run left.
\<close>

theorem reset_leaves_memory:
  "memory Processor_init = replicate 16 0
   \<and> memory (reset (snd (run 5 (load_program [5] Processor_init)))) = (replicate 16 0)[0 := 5]
   \<and> memory (reset (snd (run 5 (load_program [5] Processor_init)))) \<noteq> replicate 16 0
   \<and> loaded (reset (snd (run 5 (load_program [5] Processor_init))))
       = Some \<lparr>loaded_op1 = 0, loaded_op2 = 5, loaded_opcode = 0, loaded_mem = 0\<rparr>
   \<and> fst (run 22 (load_program [69, 326, 31, 535, 1776] Processor_init))
       = replicate 21 (Returned True) @ [Returned False]
   \<and> memory (snd (run 22 (load_program [69, 326, 31, 535, 1776] Processor_init)))
       = [0, 8, 0, 0, 11, 0, 0, 0, 0, 0, 0, 0, 0, 0, 0, 15]
   \<and> memory (snd (run 22 (load_program [69, 326, 31, 535, 1776]
         (reset (snd (run 22 (load_program [69, 326, 31, 535, 1776] Processor_init)))))))
       = [0, 8, 0, 0, 11, 0, 0, 0, 0, 0, 0, 0, 0, 0, 0, 0]"
proof -
  have once:
    "memory (reset (snd (run 5 (load_program [5] Processor_init)))) = (replicate 16 0)[0 := 5]"
    "memory (reset (snd (run 5 (load_program [5] Processor_init)))) \<noteq> replicate 16 0"
    "loaded (reset (snd (run 5 (load_program [5] Processor_init))))
       = Some \<lparr>loaded_op1 = 0, loaded_op2 = 5, loaded_opcode = 0, loaded_mem = 0\<rparr>"
    by (simp_all add: eval_nat_numeral Let_def init_defs cycle_defs alu_routing_def
        ALU_4b_compute_def)
  have outs: "fst (run 22 (load_program [69, 326, 31, 535, 1776] Processor_init))
       = replicate 21 (Returned True) @ [Returned False]"
    by code_simp
  have first: "memory (snd (run 22 (load_program [69, 326, 31, 535, 1776] Processor_init)))
       = [0, 8, 0, 0, 11, 0, 0, 0, 0, 0, 0, 0, 0, 0, 0, 15]"
    by code_simp
  have second: "memory (snd (run 22 (load_program [69, 326, 31, 535, 1776]
         (reset (snd (run 22 (load_program [69, 326, 31, 535, 1776] Processor_init)))))))
       = [0, 8, 0, 0, 11, 0, 0, 0, 0, 0, 0, 0, 0, 0, 0, 0]"
    by code_simp
  have init: "memory Processor_init = replicate 16 0"
    by (simp add: Processor_init_def)
  from init once outs first second show ?thesis by blast
qed

section \<open>Halt\<close>

text \<open>
  C6. When the processor is in FETCH and PC has reached the length of the loaded program,
  each of the next \<open>n\<close> calls of \<^verbatim>\<open>clock_cycle\<close>, for every \<open>n\<close>, returns \<^verbatim>\<open>False\<close>, and
  Memory, PC and ControlState are what they were before the first of them.
\<close>

theorem halted_stays_halted:
  assumes "state s = FETCH" and "program s = Some p" and "length p \<le> pc s"
  shows "fst (run n s) = replicate n (Returned False)
       \<and> memory (snd (run n s)) = memory s
       \<and> pc (snd (run n s)) = pc s
       \<and> state (snd (run n s)) = FETCH"
  using assms
proof (induction n arbitrary: s)
  case 0
  then show ?case by simp
next
  case (Suc n)
  note h = halt_step [OF Suc.prems]
  have "length p \<le> pc (snd (clock_cycle s))" using h(4) Suc.prems(3) by simp
  from Suc.IH [OF h(2) h(3) this] h(1,4,5)
  show ?case by (simp add: case_prod_unfold)
qed

theorem halted_stays_halted_witness:
  "fst (run 3 ((load_program [] Processor_init)\<lparr>state := FETCH\<rparr>))
     = replicate 3 (Returned False)
   \<and> memory (snd (run 3 ((load_program [] Processor_init)\<lparr>state := FETCH\<rparr>))) = replicate 16 0
   \<and> pc (snd (run 3 ((load_program [] Processor_init)\<lparr>state := FETCH\<rparr>))) = 0
   \<and> state (snd (run 3 ((load_program [] Processor_init)\<lparr>state := FETCH\<rparr>))) = FETCH"
proof -
  define s where "s = (load_program [] Processor_init)\<lparr>state := FETCH\<rparr>"
  have h: "state s = FETCH" "program s = Some []" "length ([]::int list) \<le> pc s"
    by (simp_all add: s_def init_defs)
  have v: "memory s = replicate 16 0" "pc s = 0"
    by (simp_all add: s_def init_defs)
  show ?thesis
    using halted_stays_halted [OF h, of 3]
    by (simp add: v flip: s_def del: run.simps)
qed

section \<open>The recorder\<close>

lemma clock_cycle_appends:
  "wf_clk (waveform_history (snd (clock_cycle s)))
     = wf_clk (waveform_history s) @ [(cycle_count s + 1) mod 2]"
  "wf_pc (waveform_history (snd (clock_cycle s))) = wf_pc (waveform_history s) @ [pc s]"
  "wf_state (waveform_history (snd (clock_cycle s)))
     = wf_state (waveform_history s) @ [FSMState_value (state s)]"
  "wf_alu_out (waveform_history (snd (clock_cycle s)))
     = wf_alu_out (waveform_history s) @ [alu_result s]"
  by (cases "state s";
      simp add: cycle_defs Let_def split: option.splits prod.splits)+

lemma run_appends:
  assumes "\<And>s. h (waveform_history (snd (clock_cycle s))) = h (waveform_history s) @ [g s]"
  shows "h (waveform_history (snd (run n s)))
           = h (waveform_history s) @ map (\<lambda>k. g (snd (run k s))) [0 ..< n]"
proof (induction n arbitrary: s)
  case 0
  then show ?case by simp
next
  case (Suc n)
  define s1 where "s1 = snd (clock_cycle s)"
  have step: "snd (run (Suc k) s) = snd (run k s1)" for k
    by (simp add: s1_def case_prod_unfold)
  have "[0 ..< Suc n] = 0 # map Suc [0 ..< n]"
    by (simp add: upt_conv_Cons map_Suc_upt del: upt_Suc)
  then have "map (\<lambda>k. g (snd (run k s))) [0 ..< Suc n]
          = g (snd (run 0 s)) # map (\<lambda>k. g (snd (run (Suc k) s))) [0 ..< n]"
    by (simp only: list.map map_map o_def)
  then have "map (\<lambda>k. g (snd (run k s))) [0 ..< Suc n]
          = g s # map (\<lambda>k. g (snd (run k s1))) [0 ..< n]"
    by (simp only: step run.simps(1) snd_conv)
  moreover have first: "h (waveform_history s1) = h (waveform_history s) @ [g s]"
    unfolding s1_def by (rule assms)
  moreover have "h (waveform_history (snd (run (Suc n) s)))
          = h (waveform_history s1) @ map (\<lambda>k. g (snd (run k s1))) [0 ..< n]"
    unfolding step by (rule Suc.IH)
  ultimately show ?case by (simp del: run.simps upt_Suc)
qed

text \<open>
  C8. Every call of \<^verbatim>\<open>clock_cycle\<close>, whatever it yields, so also a call after halt and a call
  that raises, appends exactly one entry to each of the \<^verbatim>\<open>clk\<close>, \<^verbatim>\<open>pc\<close>, \<^verbatim>\<open>state\<close> and \<^verbatim>\<open>alu_out\<close>
  lists: after \<open>n\<close> calls each list is the list before them followed by \<open>n\<close> entries in call
  order, the entry of call \<open>k + 1\<close> being the value that call found (the parity of the
  cycle counter it has just incremented, PC, the ordinal of ControlState, the ALU result).
  No earlier entry is changed, moved or dropped; \<^verbatim>\<open>load_program\<close> leaves the lists as they
  are, and only \<^verbatim>\<open>reset\<close> empties them.
\<close>

theorem recorder_appends:
  "wf_clk (waveform_history (snd (run n s)))
     = wf_clk (waveform_history s) @ map (\<lambda>k. (cycle_count (snd (run k s)) + 1) mod 2) [0 ..< n]
   \<and> wf_pc (waveform_history (snd (run n s)))
     = wf_pc (waveform_history s) @ map (\<lambda>k. pc (snd (run k s))) [0 ..< n]
   \<and> wf_state (waveform_history (snd (run n s)))
     = wf_state (waveform_history s) @ map (\<lambda>k. FSMState_value (state (snd (run k s)))) [0 ..< n]
   \<and> wf_alu_out (waveform_history (snd (run n s)))
     = wf_alu_out (waveform_history s) @ map (\<lambda>k. alu_result (snd (run k s))) [0 ..< n]
   \<and> waveform_history (load_program p s) = waveform_history s"
  using run_appends [of wf_clk "\<lambda>s. (cycle_count s + 1) mod 2" n s, OF clock_cycle_appends(1)]
        run_appends [of wf_pc pc n s, OF clock_cycle_appends(2)]
        run_appends [of wf_state "\<lambda>s. FSMState_value (state s)" n s, OF clock_cycle_appends(3)]
        run_appends [of wf_alu_out alu_result n s, OF clock_cycle_appends(4)]
  by (simp add: load_program_def del: run.simps upt_Suc)

section \<open>A processor without a program\<close>

text \<open>
  C10. In \<^verbatim>\<open>simulator_gui.py\<close> a new processor has no \<^verbatim>\<open>program\<close> attribute; its first call of
  \<^verbatim>\<open>clock_cycle\<close> (INIT) returns \<^verbatim>\<open>True\<close> and the second (FETCH) raises AttributeError, as does
  a call in FETCH of any processor without the attribute. In \<^verbatim>\<open>simulator_gui_enhanced.py\<close>
  the new processor has the empty program, and the second call returns \<^verbatim>\<open>False\<close>: halted.
\<close>

theorem fetch_without_program:
  "program Processor_init = None
   \<and> map fst (trace 2 Processor_init) = [Returned True, Raised AttributeError]
   \<and> fst (clock_cycle (s\<lparr>state := FETCH, program := None\<rparr>)) = Raised AttributeError
   \<and> program_e Processor_enh_init = []
   \<and> map fst (trace_enh 2 Processor_enh_init) = [Returned True, Returned False]"
  by (simp add: eval_nat_numeral Processor_init_def Processor_enh_init_def cycle_defs
      clock_cycle_enh_def record_waveform_enh_def Processor_log_enh_def fetch_phase_enh_def
      waveform_empty_def waveform_enh_empty_def Let_def)

section \<open>The two processors yield the same traces\<close>

lemmas cycle_enh_defs = clock_cycle_enh_def record_waveform_enh_def Processor_log_enh_def
  fetch_phase_enh_def load_phase_enh_def execute_phase_enh_def store_phase_enh_def
  record_ram_enh_def

lemma ALU_4b_sub_ignores_cin: "ALU_4b_compute a b 2 cin = ALU_4b_compute a b 2 True"
  by (simp add: ALU_4b_compute_def)

lemma alu_routing_enh_eq:
  "alu_routing_enh opc op2 m =
     (case alu_routing opc op2 m of (alu_s, alu_cin, alu_a) \<Rightarrow> (alu_s, False, alu_a))"
  by (simp add: alu_routing_def alu_routing_enh_def)

lemma alu_routing_cin:
  "alu_routing opc op2 m = (alu_s, alu_cin, alu_a) \<Longrightarrow>
     ALU_4b_compute alu_a b alu_s alu_cin = ALU_4b_compute alu_a b alu_s False"
  by (auto simp: alu_routing_def ALU_4b_sub_ignores_cin [of _ _ False] split: if_splits)

lemma agree_record:
  assumes "agree s e"
  shows "agree (record_waveform (s\<lparr>cycle_count := cycle_count s + 1\<rparr>))
               (record_waveform_enh (e\<lparr>cycle_count_e := cycle_count_e e + 1\<rparr>))"
  using assms by (simp add: agree_def record_waveform_def record_waveform_enh_def)

lemma agree_fetch:
  assumes "agree s e"
  shows "fst (fetch_phase s) = fst (fetch_phase_enh e)
       \<and> agree (snd (fetch_phase s)) (snd (fetch_phase_enh e))"
  using assms
  by (simp add: agree_def fetch_phase_def fetch_phase_enh_def Processor_log_def
      Processor_log_enh_def Let_def)

lemma agree_load:
  assumes "agree s e"
  shows "fst (load_phase s) = fst (load_phase_enh e)
       \<and> agree (snd (load_phase s)) (snd (load_phase_enh e))"
  using assms
  by (cases "py_getitem (memory_e e) (drop_bit 4 (instruction_e e) AND 15)")
     (simp_all add: agree_def load_phase_def load_phase_enh_def Processor_log_def
      Processor_log_enh_def record_ram_def record_ram_enh_def Let_def)

lemma agree_execute:
  assumes "agree s e"
  shows "fst (execute_phase s) = fst (execute_phase_enh e)
       \<and> agree (snd (execute_phase s)) (snd (execute_phase_enh e))"
proof (cases "loaded_e e")
  case None
  with assms show ?thesis
    by (simp add: agree_def execute_phase_def execute_phase_enh_def)
next
  case (Some l)
  show ?thesis
  proof (cases "py_getitem op_names (loaded_opcode l)")
    case None
    with Some assms show ?thesis
      by (simp add: agree_def execute_phase_def execute_phase_enh_def)
  next
    case name: (Some n)
    obtain alu_s alu_cin alu_a
      where r: "alu_routing (loaded_opcode l) (loaded_op2 l) (loaded_mem l) = (alu_s, alu_cin, alu_a)"
      by (cases "alu_routing (loaded_opcode l) (loaded_op2 l) (loaded_mem l)")
    have re: "alu_routing_enh (loaded_opcode l) (loaded_op2 l) (loaded_mem l) = (alu_s, False, alu_a)"
      by (simp add: alu_routing_enh_eq r)
    note c = alu_routing_cin [OF r, of "loaded_op2 l"]
    obtain res co where a: "ALU_4b_compute alu_a (loaded_op2 l) alu_s False = (res, co)"
      by (cases "ALU_4b_compute alu_a (loaded_op2 l) alu_s False")
    from assms Some name r re c a show ?thesis
      by (simp add: agree_def execute_phase_def execute_phase_enh_def Processor_log_def
          Processor_log_enh_def Let_def)
  qed
qed

lemma agree_store:
  assumes "agree s e"
  shows "fst (store_phase s) = fst (store_phase_enh e)
       \<and> agree (snd (store_phase s)) (snd (store_phase_enh e))"
proof (cases "loaded_e e")
  case None
  with assms show ?thesis
    by (simp add: agree_def store_phase_def store_phase_enh_def)
next
  case (Some l)
  with assms show ?thesis
    by (cases "py_setitem (memory_e e) (loaded_op1 l) (alu_result_e e)")
       (simp_all add: agree_def store_phase_def store_phase_enh_def Processor_log_def
        Processor_log_enh_def record_ram_def record_ram_enh_def Let_def)
qed

lemma agree_clock_cycle:
  assumes "agree s e"
  shows "fst (clock_cycle s) = fst (clock_cycle_enh e)
       \<and> agree (snd (clock_cycle s)) (snd (clock_cycle_enh e))"
proof -
  define s1 where "s1 = record_waveform (s\<lparr>cycle_count := cycle_count s + 1\<rparr>)"
  define e1 where "e1 = record_waveform_enh (e\<lparr>cycle_count_e := cycle_count_e e + 1\<rparr>)"
  have a1: "agree s1 e1"
    unfolding s1_def e1_def by (rule agree_record [OF assms])
  then have st: "state s1 = state_e e1" by (simp add: agree_def)
  have cs: "clock_cycle s =
      (case state s1 of
        INIT \<Rightarrow> (Returned True, (Processor_log Log_INIT s1)\<lparr>state := FETCH\<rparr>)
      | FETCH \<Rightarrow> fetch_phase s1 | LOAD \<Rightarrow> load_phase s1
      | EXECUTE \<Rightarrow> execute_phase s1 | STORE \<Rightarrow> store_phase s1)"
    by (simp only: clock_cycle_def s1_def Let_def)
  have ce: "clock_cycle_enh e =
      (case state_e e1 of
        INIT \<Rightarrow> (Returned True, (Processor_log_enh Log_INIT e1)\<lparr>state_e := FETCH\<rparr>)
      | FETCH \<Rightarrow> fetch_phase_enh e1 | LOAD \<Rightarrow> load_phase_enh e1
      | EXECUTE \<Rightarrow> execute_phase_enh e1 | STORE \<Rightarrow> store_phase_enh e1)"
    by (simp only: clock_cycle_enh_def e1_def Let_def)
  show ?thesis
  proof (cases "state_e e1")
    case INIT
    with a1 show ?thesis
      by (simp add: cs ce st agree_def Processor_log_def Processor_log_enh_def)
  next
    case FETCH
    with agree_fetch [OF a1] show ?thesis by (simp add: cs ce st)
  next
    case LOAD
    with agree_load [OF a1] show ?thesis by (simp add: cs ce st)
  next
    case EXECUTE
    with agree_execute [OF a1] show ?thesis by (simp add: cs ce st)
  next
    case STORE
    with agree_store [OF a1] show ?thesis by (simp add: cs ce st)
  qed
qed

lemma agree_observe: "agree s e \<Longrightarrow> observe s = observe_enh e"
  by (simp add: agree_def observe_def observe_enh_def)

lemma agree_trace: "agree s e \<Longrightarrow> trace n s = trace_enh n e"
proof (induction n arbitrary: s e)
  case 0
  then show ?case by simp
next
  case (Suc n)
  note st = agree_clock_cycle [OF Suc.prems]
  from st have a: "agree (snd (clock_cycle s)) (snd (clock_cycle_enh e))" by simp
  show ?case
    using st agree_observe [OF a] Suc.IH [OF a] by (simp add: case_prod_unfold)
qed

lemma agree_loaded:
  "agree (load_program p Processor_init) (load_program_enh p Processor_enh_init)"
  by (simp add: agree_def load_program_def load_program_enh_def Processor_init_def
      Processor_enh_init_def waveform_empty_def waveform_enh_empty_def)

lemma agree_reset: "agree s e \<Longrightarrow> agree (reset s) (reset_enh e)"
  by (simp add: agree_def reset_def reset_enh_def waveform_empty_def waveform_enh_empty_def)

lemma agree_state: "agree s e \<Longrightarrow> agree (s\<lparr>state := q\<rparr>) (e\<lparr>state_e := q\<rparr>)"
  by (simp add: agree_def)

text \<open>
  C9. For every program \<open>p\<close> and every number \<open>n\<close> of calls, the processor of
  \<^verbatim>\<open>simulator_gui.py\<close> and the processor of \<^verbatim>\<open>simulator_gui_enhanced.py\<close>, each new and given
  \<open>p\<close> by \<^verbatim>\<open>load_program\<close>, yield the same trace: the same return value or exception at each
  call, and the same Memory, PC, ControlState, ALU result and carry-out after it. The same
  holds when both are then reset and put into FETCH, as \<^verbatim>\<open>run_program\<close> does. For SUB the
  first file passes carry-in true and the second carry-in false, and the ALU returns the
  same for both, since select 010 does not read the caller's carry-in.
\<close>

theorem processors_same_trace:
  "trace n (load_program p Processor_init)
     = trace_enh n (load_program_enh p Processor_enh_init)
   \<and> trace n ((reset (load_program p Processor_init))\<lparr>state := FETCH\<rparr>)
     = trace_enh n ((reset_enh (load_program_enh p Processor_enh_init))\<lparr>state_e := FETCH\<rparr>)
   \<and> alu_routing 2 op2 m = (2, True, m) \<and> alu_routing_enh 2 op2 m = (2, False, m)
   \<and> ALU_4b_compute a b 2 False = ALU_4b_compute a b 2 True"
  using agree_trace [OF agree_loaded]
        agree_trace [OF agree_state [OF agree_reset [OF agree_loaded]]]
  by (simp add: alu_routing_def alu_routing_enh_def ALU_4b_sub_ignores_cin [of a b False])

end
